theory Spec2Isabelle
  imports Complex_Main
begin

section \<open>Planetary motion simulation: the simulation core of main.py\<close>

text \<open>
  The embedding follows \<^verbatim>\<open>main.py\<close>: the class \<^verbatim>\<open>Planet\<close> with its methods
  \<^verbatim>\<open>attract\<close>, \<^verbatim>\<open>collide\<close> and \<^verbatim>\<open>update_position\<close>, and the loop of the main
  program that calls \<^verbatim>\<open>update_position\<close> on the bodies of the list \<^verbatim>\<open>planets\<close>.

  Numbers are real numbers: Python's floats are read as the reals they denote, and the
  arithmetic is exact (no rounding, no overflow, no infinities or NaN). Rendering
  (\<^verbatim>\<open>draw\<close>, \<^verbatim>\<open>draw_info\<close>) changes no field of a body and is left out. Of the
  mouse handling, the write to the dragged body (lines 294 to 300) is modelled; the event
  pump that sets \<^verbatim>\<open>paused\<close> and \<^verbatim>\<open>dragging_planet\<close> is not, and its results are the
  inputs of a frame.
\<close>

subsection \<open>Physics constants\<close>

definition G :: real where
  "G = 667430 / 10 ^ 16"  \<comment> \<open>\<^verbatim>\<open>6.67430e-11\<close>\<close>

definition SCALE :: real where
  "SCALE = 100 / 149600000000"  \<comment> \<open>\<^verbatim>\<open>100 / 1.496e11\<close>\<close>

definition TIMESTEP :: real where
  "TIMESTEP = 3600 * 24"

definition trail_limit :: nat where
  "trail_limit = 200"

subsection \<open>Bodies\<close>

text \<open>
  The fields of \<^verbatim>\<open>Planet\<close>. The source calls the position fields \<^verbatim>\<open>x\<close> and \<^verbatim>\<open>y\<close>;
  they are \<open>x_pos\<close> and \<open>y_pos\<close> here, named like \<^verbatim>\<open>x_vel\<close> and \<^verbatim>\<open>y_vel\<close>.
\<close>

record Planet =
  x_pos :: real
  y_pos :: real
  radius :: real
  physical_radius :: real
  color :: "nat \<times> nat \<times> nat"
  mass :: real
  name :: string
  type_id :: int
  orbit :: "(real \<times> real) list"
  x_vel :: real
  y_vel :: real

text \<open>\<^verbatim>\<open>Planet.__init__\<close>: the physical radius is derived from the render radius.\<close>

definition new_Planet ::
  "real \<Rightarrow> real \<Rightarrow> real \<Rightarrow> nat \<times> nat \<times> nat \<Rightarrow> real \<Rightarrow> string \<Rightarrow> int \<Rightarrow> Planet" where
  "new_Planet x y r c m n t =
     \<lparr> x_pos = x, y_pos = y, radius = r, physical_radius = r / SCALE, color = c,
       mass = m, name = n, type_id = t, orbit = [], x_vel = 0, y_vel = 0 \<rparr>"

subsection \<open>Errors\<close>

text \<open>
  \<open>ZeroDivisionError\<close>: a float division by zero. \<open>ValueError\<close>: \<^verbatim>\<open>list.remove\<close> of an
  element that is not in the list. \<open>ComplexValue\<close> is not an exception: Python's
  \<^verbatim>\<open>**\<close> with a negative base and the exponent \<^verbatim>\<open>1/3\<close> returns a complex number,
  which the real-valued fields of this model cannot hold, so the model stops there.
\<close>

datatype error = ZeroDivisionError | ValueError | ComplexValue

definition py_pow :: "real \<Rightarrow> real \<Rightarrow> error + real" where
  "py_pow b e = (if b < 0 then Inl ComplexValue else Inr (b powr e))"

subsection \<open>The collision resolver\<close>

definition collide :: "Planet \<Rightarrow> Planet \<Rightarrow> error + Planet" where
  "collide self other =
     (let total_mass = mass self + mass other in
      if total_mass = 0 then Inl ZeroDivisionError
      else
        let xv = (x_vel self * mass self + x_vel other * mass other) / total_mass;
            yv = (y_vel self * mass self + y_vel other * mass other) / total_mass
        in case py_pow ((physical_radius self) ^ 3 + (physical_radius other) ^ 3) (1 / 3) of
             Inl e \<Rightarrow> Inl e
           | Inr cube_root \<Rightarrow>
               let new_radius = cube_root * SCALE;
                   new_type = (if mass self > mass other then type_id self else type_id other);
                   new_name = name self @ ''+'' @ name other;
                   new_planet = new_Planet ((x_pos self + x_pos other) / 2)
                                  ((y_pos self + y_pos other) / 2)
                                  new_radius (color self) total_mass new_name new_type
               in Inr (new_planet\<lparr> x_vel := xv, y_vel := yv \<rparr>))"

subsection \<open>The force model\<close>

text \<open>
  \<^verbatim>\<open>math.atan2(y, x)\<close> is the library's: the angle in \<open>(-\<pi>, \<pi>]\<close> of the point
  \<open>(x, y)\<close>, written out by quadrant (the reals have no signed zero).
\<close>

definition atan2 :: "real \<Rightarrow> real \<Rightarrow> real" where
  "atan2 y x =
     (if 0 < x then arctan (y / x)
      else if x < 0 then (if 0 \<le> y then arctan (y / x) + pi else arctan (y / x) - pi)
      else if 0 < y then pi / 2
      else if y < 0 then - (pi / 2)
      else 0)"

definition attract :: "Planet \<Rightarrow> Planet \<Rightarrow> real \<times> real" where
  "attract self other =
     (let dx = x_pos other - x_pos self;
          dy = y_pos other - y_pos self;
          distance = sqrt (dx ^ 2 + dy ^ 2)
      in if distance = 0 then (0, 0)
         else
           let force = G * mass self * mass other / distance ^ 2;
               theta = atan2 dy dx;
               fx = cos theta * force;
               fy = sin theta * force
           in (fx, fy))"

subsection \<open>The collection of bodies\<close>

text \<open>
  Python compares two \<^verbatim>\<open>Planet\<close> objects by identity (the class defines no
  \<^verbatim>\<open>__eq__\<close>), and \<^verbatim>\<open>update_position\<close> mutates \<^verbatim>\<open>self\<close> while the list
  \<^verbatim>\<open>planets\<close> and the loop variables hold references to it. So a body is a reference
  (a natural number) into a store, the list \<open>planets\<close> is a list of references, and
  \<open>next_ref\<close> is the reference the next new object gets.
\<close>

record world =
  heap :: "nat \<Rightarrow> Planet"
  planets :: "nat list"
  next_ref :: nat

text \<open>\<^verbatim>\<open>list.remove(v)\<close>: drops the first occurrence, raises when there is none.\<close>

definition list_remove :: "nat \<Rightarrow> nat list \<Rightarrow> error + nat list" where
  "list_remove v xs = (if v \<in> set xs then Inr (remove1 v xs) else Inl ValueError)"

subsection \<open>The step engine\<close>

text \<open>
  The \<^verbatim>\<open>for planet in planets[:]\<close> loop of \<^verbatim>\<open>update_position\<close>, over the copy of the
  list: it ends either at the first other body that overlaps \<^verbatim>\<open>self\<close> (the early
  \<^verbatim>\<open>return\<close> after the merge), or with the accumulated force.
\<close>

datatype scan_result = Collision nat | Forces real real

fun scan_others :: "(nat \<Rightarrow> Planet) \<Rightarrow> nat \<Rightarrow> nat list \<Rightarrow> real \<Rightarrow> real \<Rightarrow> scan_result" where
  "scan_others h self [] total_fx total_fy = Forces total_fx total_fy"
| "scan_others h self (planet # rest) total_fx total_fy =
     (if self = planet then scan_others h self rest total_fx total_fy
      else
        let dx = x_pos (h planet) - x_pos (h self);
            dy = y_pos (h planet) - y_pos (h self);
            distance = sqrt (dx ^ 2 + dy ^ 2)
        in if distance \<le> physical_radius (h self) + physical_radius (h planet)
           then Collision planet
           else
             let (fx, fy) = attract (h self) (h planet)
             in scan_others h self rest (total_fx + fx) (total_fy + fy))"

text \<open>
  The bodies on which the loop above calls \<^verbatim>\<open>self.attract(planet)\<close> (line 138 is
  reached), in the order of the calls.
\<close>

fun attract_calls :: "(nat \<Rightarrow> Planet) \<Rightarrow> nat \<Rightarrow> nat list \<Rightarrow> nat list" where
  "attract_calls h self [] = []"
| "attract_calls h self (planet # rest) =
     (if self = planet then attract_calls h self rest
      else
        let dx = x_pos (h planet) - x_pos (h self);
            dy = y_pos (h planet) - y_pos (h self);
            distance = sqrt (dx ^ 2 + dy ^ 2)
        in if distance \<le> physical_radius (h self) + physical_radius (h planet)
           then []
           else planet # attract_calls h self rest)"

text \<open>The body of \<^verbatim>\<open>update_position\<close> after the loop: velocity, position, trail.\<close>

definition integrate :: "Planet \<Rightarrow> real \<Rightarrow> real \<Rightarrow> error + Planet" where
  "integrate p total_fx total_fy =
     (if mass p = 0 then Inl ZeroDivisionError
      else
        let xv = x_vel p + total_fx / mass p * TIMESTEP;
            yv = y_vel p + total_fy / mass p * TIMESTEP;
            x = x_pos p + xv * TIMESTEP;
            y = y_pos p + yv * TIMESTEP;
            orb = orbit p @ [(x, y)]
        in Inr (p\<lparr> x_pos := x, y_pos := y,
                   orbit := (if length orb > trail_limit then tl orb else orb),
                   x_vel := xv, y_vel := yv \<rparr>))"

definition update_position :: "nat \<Rightarrow> world \<Rightarrow> error + world" where
  "update_position self w =
     (case scan_others (heap w) self (planets w) 0 0 of
        Collision planet \<Rightarrow>
          (case collide (heap w self) (heap w planet) of
             Inl e \<Rightarrow> Inl e
           | Inr new_planet \<Rightarrow>
               (case list_remove self (planets w) of
                  Inl e \<Rightarrow> Inl e
                | Inr ps1 \<Rightarrow>
                    (case list_remove planet ps1 of
                       Inl e \<Rightarrow> Inl e
                     | Inr ps2 \<Rightarrow>
                         Inr (w\<lparr> heap := (heap w)(next_ref w := new_planet),
                                  planets := ps2 @ [next_ref w],
                                  next_ref := Suc (next_ref w) \<rparr>))))
      | Forces total_fx total_fy \<Rightarrow>
          (case integrate (heap w self) total_fx total_fy of
             Inl e \<Rightarrow> Inl e
           | Inr p \<Rightarrow> Inr (w\<lparr> heap := (heap w)(self := p) \<rparr>)))"

text \<open>
  The loop of the main program (lines 315 to 317): \<^verbatim>\<open>for planet in planets\<close> walks the
  live list by index, reading its length again at every turn, while
  \<^verbatim>\<open>update_position\<close> removes and appends elements.
\<close>

function main_pass :: "bool \<Rightarrow> nat option \<Rightarrow> nat \<Rightarrow> world \<Rightarrow> error + world" where
  "main_pass paused dragging_planet i w =
     (if i < length (planets w) then
        let planet = planets w ! i in
        if \<not> paused \<or> Some planet = dragging_planet then
          (case update_position planet w of
             Inl e \<Rightarrow> Inl e
           | Inr w' \<Rightarrow> main_pass paused dragging_planet (Suc i) w')
        else main_pass paused dragging_planet (Suc i) w
      else Inr w)"
  by pat_completeness auto
termination
proof (relation "measure (\<lambda>(paused, dragging_planet, i, w). length (planets w) - i)")
  show "wf (measure (\<lambda>(paused, dragging_planet, i, w). length (planets w) - i))"
    by simp
next
  fix paused :: bool and dragging_planet :: "nat option" and i :: nat and w w' :: world
    and planet :: nat
  assume i: "i < length (planets w)"
    and u: "update_position planet w = Inr w'"
  have r: "Suc (length ys) = length xs" if "list_remove v xs = Inr ys" for v xs ys
  proof -
    from that have "v \<in> set xs" and "ys = remove1 v xs"
      by (auto simp: list_remove_def split: if_splits)
    then show ?thesis
      using length_pos_if_in_set [of v xs] by (simp add: length_remove1)
  qed
  from u have "length (planets w') \<le> length (planets w)"
    by (auto simp: update_position_def split: scan_result.splits sum.splits dest!: r)
  with i show "((paused, dragging_planet, Suc i, w'), (paused, dragging_planet, i, w))
      \<in> measure (\<lambda>(paused, dragging_planet, i, w). length (planets w) - i)"
    by simp
next
  fix paused :: bool and dragging_planet :: "nat option" and i :: nat and w :: world
  assume "i < length (planets w)"
  then show "((paused, dragging_planet, Suc i, w), (paused, dragging_planet, i, w))
      \<in> measure (\<lambda>(paused, dragging_planet, i, w). length (planets w) - i)"
    by simp
qed

declare main_pass.simps [simp del]

text \<open>The pass of one frame over the collection, started at index 0.\<close>

definition step :: "bool \<Rightarrow> nat option \<Rightarrow> world \<Rightarrow> error + world" where
  "step paused dragging_planet w = main_pass paused dragging_planet 0 w"





subsection \<open>Observations on a collection\<close>

text \<open>
  The collision test of \<^verbatim>\<open>update_position\<close> (line 131) as a predicate on two
  bodies, and the pairs of distinct bodies of the collection that pass it.
\<close>

definition overlapping :: "Planet \<Rightarrow> Planet \<Rightarrow> bool" where
  "overlapping a b =
     (sqrt ((x_pos b - x_pos a) ^ 2 + (y_pos b - y_pos a) ^ 2)
        \<le> physical_radius a + physical_radius b)"

definition overlapping_pairs :: "world \<Rightarrow> (nat \<times> nat) list" where
  "overlapping_pairs w =
     [(a, b). a \<leftarrow> planets w, b \<leftarrow> planets w, a \<noteq> b \<and> overlapping (heap w a) (heap w b)]"

text \<open>The other bodies that overlap \<open>self\<close>; the scan stops at the first one.\<close>

definition overlaps_of :: "world \<Rightarrow> nat \<Rightarrow> nat list" where
  "overlaps_of w self =
     filter (\<lambda>p. p \<noteq> self \<and> overlapping (heap w self) (heap w p)) (planets w)"

definition positions :: "world \<Rightarrow> (real \<times> real) list" where
  "positions w = map (\<lambda>r. (x_pos (heap w r), y_pos (heap w r))) (planets w)"

definition trails :: "world \<Rightarrow> (real \<times> real) list list" where
  "trails w = map (\<lambda>r. orbit (heap w r)) (planets w)"






text \<open>
  What the program's allocation guarantees: every object is in the list once, and the
  next new object is none of them.
\<close>

definition wf_world :: "world \<Rightarrow> bool" where
  "wf_world w = (distinct (planets w) \<and> (\<forall>r \<in> set (planets w). r < next_ref w))"

subsection \<open>Bodies of the scenarios\<close>

text \<open>
  The Sun and the Earth of the solar system preset (mode 1), and two bodies of equal mass
  as mode 2 builds them from the user's input.
\<close>

definition sun :: Planet where
  "sun = new_Planet 0 0 30 (255, 255, 0) (1989 * 10 ^ 27) ''Sun'' 1"

definition earth :: Planet where
  "earth = (new_Planet (1 * 149600000000) 0 10 (100, 149, 237) (5972 * 10 ^ 21) ''Earth'' 2)
             \<lparr> y_vel := 29780 \<rparr>"

definition rock :: Planet where
  "rock = new_Planet 0 0 1 (255, 255, 255) 1 ''rock'' 5"

definition star :: Planet where
  "star = new_Planet 0 0 1 (255, 255, 0) 1 ''star'' 1"

text \<open>Collections: objects with the same field values are still different objects.\<close>

definition two_rocks :: world where
  "two_rocks = \<lparr> heap = (\<lambda>_. rock), planets = [0, 1], next_ref = 2 \<rparr>"

definition four_rocks :: world where
  "four_rocks = \<lparr> heap = (\<lambda>_. rock), planets = [0, 1, 2, 3], next_ref = 4 \<rparr>"

definition earth_alone :: world where
  "earth_alone = \<lparr> heap = (\<lambda>_. earth), planets = [0], next_ref = 1 \<rparr>"

definition sun_earth :: world where
  "sun_earth = \<lparr> heap = (\<lambda>_. sun)(1 := earth), planets = [0, 1], next_ref = 2 \<rparr>"





section \<open>Properties of the collision resolver\<close>

lemma SCALE_pos: "0 < SCALE"
  by (simp add: SCALE_def)

lemma collide_InrE:
  assumes "collide a b = Inr m"
  shows "mass a + mass b \<noteq> 0"
    and "0 \<le> (physical_radius a) ^ 3 + (physical_radius b) ^ 3"
    and "m = (new_Planet ((x_pos a + x_pos b) / 2) ((y_pos a + y_pos b) / 2)
               (((physical_radius a) ^ 3 + (physical_radius b) ^ 3) powr (1 / 3) * SCALE)
               (color a) (mass a + mass b) (name a @ ''+'' @ name b)
               (if mass a > mass b then type_id a else type_id b))
             \<lparr> x_vel := (x_vel a * mass a + x_vel b * mass b) / (mass a + mass b),
               y_vel := (y_vel a * mass a + y_vel b * mass b) / (mass a + mass b) \<rparr>"
  using assms
  by (auto simp: collide_def py_pow_def Let_def split: if_splits)

text \<open>
  The merge is defined for all bodies the data model allows: positive masses and
  non-negative radii are enough.
\<close>

lemma collide_succeeds:
  assumes "mass a + mass b \<noteq> 0"
    and "0 \<le> (physical_radius a) ^ 3 + (physical_radius b) ^ 3"
  shows "\<exists>m. collide a b = Inr m"
  using assms by (simp add: collide_def py_pow_def Let_def)

lemma collide_sun_earth: "\<exists>m. collide sun earth = Inr m"
  by (rule collide_succeeds) (simp_all add: sun_def earth_def new_Planet_def SCALE_def)

lemma cube_powr_third:
  fixes v :: real
  assumes "0 \<le> v"
  shows "(v powr (1 / 3)) ^ 3 = v"
proof (cases "v = 0")
  case True
  then show ?thesis by simp
next
  case False
  with assms have "0 < v" by simp
  have "(v powr (1 / 3)) ^ 3 = (v powr (1 / 3)) powr 3"
    by simp
  also have "\<dots> = v powr (1 / 3 * 3)"
    by (rule powr_powr)
  also have "\<dots> = v"
    using \<open>0 < v\<close> by simp
  finally show ?thesis .
qed

text \<open>
  C1. Whenever \<open>collide\<close> merges two bodies \<open>a\<close> and \<open>b\<close>, the mass of the merged body
  is \<open>mass a + mass b\<close>.
\<close>

theorem collide_mass:
  assumes "collide a b = Inr m"
  shows "mass m = mass a + mass b"
  using collide_InrE(3) [OF assms] by (simp add: new_Planet_def)

theorem collide_mass_witness:
  "\<exists>m. collide sun earth = Inr m \<and> mass m = 1989 * 10 ^ 27 + 5972 * 10 ^ 21"
proof -
  obtain m where m: "collide sun earth = Inr m"
    using collide_sun_earth by blast
  from collide_mass [OF m] m show ?thesis
    by (auto simp: sun_def earth_def new_Planet_def)
qed

text \<open>
  C2. When two bodies of positive mass are merged, each velocity component of the merged
  body is the mass-weighted average of the inputs' components, so the momentum of the
  merged body (its mass times its velocity) is the sum of the inputs' momenta.
\<close>

theorem collide_momentum:
  assumes "0 < mass a" and "0 < mass b" and "collide a b = Inr m"
  shows "x_vel m = (mass a * x_vel a + mass b * x_vel b) / (mass a + mass b)
       \<and> y_vel m = (mass a * y_vel a + mass b * y_vel b) / (mass a + mass b)
       \<and> mass m * x_vel m = mass a * x_vel a + mass b * x_vel b
       \<and> mass m * y_vel m = mass a * y_vel a + mass b * y_vel b"
proof -
  from assms(1,2) have nz: "mass a + mass b \<noteq> 0" by simp
  show ?thesis
    using nz by (simp add: collide_InrE(3) [OF assms(3)] new_Planet_def mult.commute)
qed

theorem collide_momentum_witness:
  "\<exists>m. collide sun earth = Inr m \<and> x_vel m = 0
     \<and> mass m * y_vel m = 5972 * 10 ^ 21 * 29780"
proof -
  obtain m where m: "collide sun earth = Inr m"
    using collide_sun_earth by blast
  have "0 < mass sun" "0 < mass earth"
    by (simp_all add: sun_def earth_def new_Planet_def)
  from collide_momentum [OF this m] m show ?thesis
    by (auto simp: sun_def earth_def new_Planet_def)
qed

text \<open>
  C6, as the code has it. The merged body takes the category (\<open>type_id\<close>) of the left
  operand when the left operand's mass is strictly greater, and the category of the right
  operand otherwise, so also when the masses are equal. Its name is the left name, the
  separator \<open>+\<close> and the right name.
\<close>

theorem collide_type_name:
  assumes "collide a b = Inr m"
  shows "type_id m = (if mass b < mass a then type_id a else type_id b)
       \<and> name m = name a @ ''+'' @ name b"
  using collide_InrE(3) [OF assms] by (simp add: new_Planet_def)

theorem collide_type_name_witness:
  "\<exists>m. collide sun earth = Inr m \<and> type_id m = 1 \<and> name m = ''Sun+Earth''"
proof -
  obtain m where m: "collide sun earth = Inr m"
    using collide_sun_earth by blast
  from collide_type_name [OF m] m show ?thesis
    by (auto simp: sun_def earth_def new_Planet_def)
qed

text \<open>
  C6 with the tie going to the left operand, as the specification words it, fails:
  \<open>star\<close> (category 1, the left operand) and \<open>rock\<close> (category 5) have the same mass,
  and the merged body has category 5.
\<close>

theorem collide_tie_counterexample:
  "mass star = mass rock \<and> type_id star = 1
   \<and> map_sum id type_id (collide star rock) = Inr 5"
  by (simp add: collide_def py_pow_def star_def rock_def new_Planet_def Let_def SCALE_def)

text \<open>
  C8. The physical radius of the merged body is the cube root of the sum of the cubes of
  the inputs' physical radii (so the volumes add up), its render radius is that value
  times \<open>SCALE\<close>, and its position is the midpoint of the inputs' positions.
\<close>

theorem collide_radius_position:
  assumes "collide a b = Inr m"
  shows "physical_radius m = ((physical_radius a) ^ 3 + (physical_radius b) ^ 3) powr (1 / 3)
       \<and> (physical_radius m) ^ 3 = (physical_radius a) ^ 3 + (physical_radius b) ^ 3
       \<and> radius m = physical_radius m * SCALE
       \<and> x_pos m = (x_pos a + x_pos b) / 2
       \<and> y_pos m = (y_pos a + y_pos b) / 2"
proof -
  have pr: "physical_radius m = ((physical_radius a) ^ 3 + (physical_radius b) ^ 3) powr (1 / 3)"
    using SCALE_pos by (simp add: collide_InrE(3) [OF assms] new_Planet_def)
  moreover have "(physical_radius m) ^ 3 = (physical_radius a) ^ 3 + (physical_radius b) ^ 3"
    unfolding pr using collide_InrE(2) [OF assms] by (rule cube_powr_third)
  moreover have "radius m = physical_radius m * SCALE"
    unfolding pr by (simp add: collide_InrE(3) [OF assms] new_Planet_def)
  moreover have "x_pos m = (x_pos a + x_pos b) / 2" "y_pos m = (y_pos a + y_pos b) / 2"
    by (simp_all add: collide_InrE(3) [OF assms] new_Planet_def)
  ultimately show ?thesis by simp
qed

theorem collide_radius_position_witness:
  "\<exists>m. collide sun earth = Inr m
     \<and> (physical_radius m) ^ 3 = (30 / SCALE) ^ 3 + (10 / SCALE) ^ 3
     \<and> x_pos m = 74800000000 \<and> y_pos m = 0"
proof -
  obtain m where m: "collide sun earth = Inr m"
    using collide_sun_earth by blast
  from collide_radius_position [OF m] m show ?thesis
    by (auto simp: sun_def earth_def new_Planet_def)
qed

section \<open>Properties of the force model\<close>

lemma sqrt_sum_squares_factor:
  fixes x y :: real
  assumes "x \<noteq> 0"
  shows "sqrt (x\<^sup>2 + y\<^sup>2) = \<bar>x\<bar> * sqrt (1 + (y / x)\<^sup>2)"
proof -
  have "x\<^sup>2 + y\<^sup>2 = x\<^sup>2 * (1 + (y / x)\<^sup>2)"
    using assms by (simp add: power_divide distrib_left)
  then have "sqrt (x\<^sup>2 + y\<^sup>2) = sqrt (x\<^sup>2 * (1 + (y / x)\<^sup>2))"
    by simp
  also have "\<dots> = \<bar>x\<bar> * sqrt (1 + (y / x)\<^sup>2)"
    by (simp add: real_sqrt_mult)
  finally show ?thesis .
qed

lemma sqrt_one_plus_pos: "0 < sqrt (1 + (t::real)\<^sup>2)"
  by (simp add: add_pos_nonneg)

lemma cos_atan2:
  assumes "x \<noteq> 0 \<or> y \<noteq> 0"
  shows "cos (atan2 y x) = x / sqrt (x\<^sup>2 + y\<^sup>2)"
proof (cases "x = 0")
  case True
  with assms have "y \<noteq> 0" by simp
  with True show ?thesis by (simp add: atan2_def)
next
  case False
  note f = sqrt_sum_squares_factor [OF False, of y]
  have nz: "sqrt (1 + (y / x)\<^sup>2) \<noteq> 0"
    using sqrt_one_plus_pos [of "y / x"] by simp
  show ?thesis
  proof (cases "0 < x")
    case True
    then show ?thesis
      using nz by (simp add: atan2_def cos_arctan f)
  next
    case neg: False
    with False have "x < 0" by simp
    then show ?thesis
      using nz by (simp add: atan2_def cos_arctan f)
  qed
qed

lemma sin_atan2:
  assumes "x \<noteq> 0 \<or> y \<noteq> 0"
  shows "sin (atan2 y x) = y / sqrt (x\<^sup>2 + y\<^sup>2)"
proof (cases "x = 0")
  case True
  with assms have "y \<noteq> 0" by simp
  with True show ?thesis by (auto simp: atan2_def)
next
  case False
  note f = sqrt_sum_squares_factor [OF False, of y]
  have nz: "sqrt (1 + (y / x)\<^sup>2) \<noteq> 0"
    using sqrt_one_plus_pos [of "y / x"] by simp
  show ?thesis
  proof (cases "0 < x")
    case True
    then show ?thesis
      using nz by (simp add: atan2_def sin_arctan f)
  next
    case neg: False
    with False have "x < 0" by simp
    then show ?thesis
      using nz by (simp add: atan2_def sin_arctan f)
  qed
qed


lemma attract_coincident:
  assumes "x_pos b = x_pos a" and "y_pos b = y_pos a"
  shows "attract a b = (0, 0)"
  using assms by (simp add: attract_def)

lemma attract_apart:
  assumes "dx = x_pos b - x_pos a" and "dy = y_pos b - y_pos a"
    and "d = sqrt (dx\<^sup>2 + dy\<^sup>2)" and "d \<noteq> 0"
  shows "attract a b =
    (G * mass a * mass b / d\<^sup>2 * (dx / d), G * mass a * mass b / d\<^sup>2 * (dy / d))"
proof -
  from assms(3,4) have "dx \<noteq> 0 \<or> dy \<noteq> 0"
    by auto
  then have "cos (atan2 dy dx) = dx / d" and "sin (atan2 dy dx) = dy / d"
    unfolding assms(3) by (rule cos_atan2, rule sin_atan2)
  then show ?thesis
    using assms by (simp add: attract_def Let_def)
qed

lemma scaled_unit_norm:
  fixes dx dy F :: real
  assumes "d = sqrt (dx\<^sup>2 + dy\<^sup>2)" and "d \<noteq> 0"
  shows "sqrt ((F * (dx / d))\<^sup>2 + (F * (dy / d))\<^sup>2) = \<bar>F\<bar>"
proof -
  have d2: "d\<^sup>2 = dx\<^sup>2 + dy\<^sup>2"
    unfolding assms(1) by simp
  have "(F * (dx / d))\<^sup>2 + (F * (dy / d))\<^sup>2 = F\<^sup>2 * ((dx\<^sup>2 + dy\<^sup>2) / d\<^sup>2)"
    by (simp add: power_mult_distrib power_divide distrib_left add_divide_distrib)
  also have "\<dots> = F\<^sup>2"
    using assms(2) by (simp add: d2 [symmetric])
  finally show ?thesis by simp
qed

text \<open>
  C3. With \<open>dx\<close>, \<open>dy\<close> the vector from \<open>a\<close>'s position to \<open>b\<close>'s, \<open>d\<close> its Euclidean
  length and \<open>F = G * mass a * mass b / d\<^sup>2\<close>: when \<open>d = 0\<close> the force is \<open>(0, 0)\<close>;
  when \<open>d \<noteq> 0\<close> the force is \<open>F\<close> times the unit vector from \<open>a\<close> to \<open>b\<close>, its
  magnitude is \<open>\<bar>F\<bar>\<close>, and that is \<open>F\<close> itself for positive masses.
\<close>

theorem attract_force:
  assumes "dx = x_pos b - x_pos a" and "dy = y_pos b - y_pos a"
    and "d = sqrt (dx\<^sup>2 + dy\<^sup>2)" and "F = G * mass a * mass b / d\<^sup>2"
  shows "(d = 0 \<longrightarrow> attract a b = (0, 0))
       \<and> (d \<noteq> 0 \<longrightarrow> attract a b = (F * (dx / d), F * (dy / d))
            \<and> sqrt ((fst (attract a b))\<^sup>2 + (snd (attract a b))\<^sup>2) = \<bar>F\<bar>
            \<and> (0 < mass a \<and> 0 < mass b \<longrightarrow> \<bar>F\<bar> = F))"
proof (intro conjI impI)
  assume "d = 0"
  with assms(1-3) show "attract a b = (0, 0)"
    by (simp add: attract_def)
next
  assume nz: "d \<noteq> 0"
  show v: "attract a b = (F * (dx / d), F * (dy / d))"
    unfolding assms(4) using assms(1-3) nz by (rule attract_apart)
  show "sqrt ((fst (attract a b))\<^sup>2 + (snd (attract a b))\<^sup>2) = \<bar>F\<bar>"
    unfolding v fst_conv snd_conv using assms(3) nz by (rule scaled_unit_norm)
next
  assume "0 < mass a \<and> 0 < mass b"
  then have "0 \<le> F"
    unfolding assms(4) by (simp add: G_def)
  then show "\<bar>F\<bar> = F" by simp
qed

theorem attract_force_witness:
  "attract sun sun = (0, 0)
   \<and> attract sun earth = (G * (1989 * 10 ^ 27) * (5972 * 10 ^ 21) / 149600000000\<^sup>2, 0)"
proof -
  have "attract sun sun = (0, 0)"
    using attract_force [of 0 sun sun 0 0 0] by (simp add: sun_def new_Planet_def)
  moreover have "attract sun earth = (G * (1989 * 10 ^ 27) * (5972 * 10 ^ 21) / 149600000000\<^sup>2, 0)"
    using attract_force [of 149600000000 earth sun 0 149600000000
        "G * (1989 * 10 ^ 27) * (5972 * 10 ^ 21) / 149600000000\<^sup>2"]
    by (simp add: sun_def earth_def new_Planet_def)
  ultimately show ?thesis by simp
qed

text \<open>
  In exact arithmetic the two forces of a pair at distinct positions cancel in each
  component and have the same magnitude. This is a fact about the formula only: the
  program evaluates \<open>G * mass a * mass b\<close> in two different orders and takes the sine and
  cosine of a rounded angle, all in floating point, and rounding is outside this model.
\<close>

lemma attract_exact_cancel:
  assumes "x_pos a \<noteq> x_pos b \<or> y_pos a \<noteq> y_pos b"
  shows "fst (attract a b) + fst (attract b a) = 0
       \<and> snd (attract a b) + snd (attract b a) = 0
       \<and> sqrt ((fst (attract a b))\<^sup>2 + (snd (attract a b))\<^sup>2)
           = sqrt ((fst (attract b a))\<^sup>2 + (snd (attract b a))\<^sup>2)"
proof -
  define dx where "dx = x_pos b - x_pos a"
  define dy where "dy = y_pos b - y_pos a"
  define d where "d = sqrt (dx\<^sup>2 + dy\<^sup>2)"
  define F where "F = G * mass a * mass b / d\<^sup>2"
  from assms have "dx \<noteq> 0 \<or> dy \<noteq> 0"
    by (auto simp: dx_def dy_def)
  then have nz: "d \<noteq> 0"
    by (auto simp: d_def)
  have ab: "attract a b = (F * (dx / d), F * (dy / d))"
    unfolding F_def using dx_def dy_def d_def nz by (rule attract_apart)
  have d': "d = sqrt ((- dx)\<^sup>2 + (- dy)\<^sup>2)"
    by (simp add: d_def)
  have "attract b a = (G * mass b * mass a / d\<^sup>2 * (- dx / d), G * mass b * mass a / d\<^sup>2 * (- dy / d))"
    by (rule attract_apart [OF _ _ d' nz]) (simp_all add: dx_def dy_def)
  then have ba: "attract b a = (- (F * (dx / d)), - (F * (dy / d)))"
    by (simp add: F_def mult.commute mult.left_commute)
  show ?thesis
    unfolding ab ba by simp
qed

section \<open>The scan of the other bodies\<close>

text \<open>
  The scan finds the first other body that passes the collision test; when there is none,
  its result is the sum of the forces of the calls of \<open>attract\<close>.
\<close>

lemma scan_others_Collision:
  assumes "scan_others h self ps fx fy = Collision p"
  shows "p \<in> set ps \<and> p \<noteq> self \<and> overlapping (h self) (h p)"
  using assms
  by (induction ps arbitrary: fx fy)
     (auto simp: Let_def overlapping_def split: if_splits prod.splits)

lemma scan_others_Forces:
  assumes "scan_others h self ps fx fy = Forces tx ty" and "p \<in> set ps" and "p \<noteq> self"
  shows "\<not> overlapping (h self) (h p)"
  using assms
  by (induction ps arbitrary: fx fy)
     (auto simp: Let_def overlapping_def split: if_splits prod.splits)

lemma scan_others_filter:
  "scan_others h self ps fx fy =
     (case filter (\<lambda>p. p \<noteq> self \<and> overlapping (h self) (h p)) ps of
        [] \<Rightarrow> Forces (fx + sum_list (map (\<lambda>p. fst (attract (h self) (h p))) (attract_calls h self ps)))
                     (fy + sum_list (map (\<lambda>p. snd (attract (h self) (h p))) (attract_calls h self ps)))
      | p # _ \<Rightarrow> Collision p)"
  by (induction ps arbitrary: fx fy)
     (auto simp: Let_def overlapping_def split: prod.splits list.splits)

lemma attract_calls_subset:
  "p \<in> set (attract_calls h self ps) \<Longrightarrow> p \<in> set ps \<and> p \<noteq> self \<and> \<not> overlapping (h self) (h p)"
  by (induction ps) (auto simp: Let_def overlapping_def split: if_splits)

text \<open>
  C10. Every body \<open>p\<close> on which \<open>update_position\<close> calls \<open>self.attract(p)\<close> has failed
  the collision test just before, so when both physical radii are strictly positive the
  distance between \<open>self\<close> and \<open>p\<close> is not zero: the \<open>distance == 0\<close> branch of \<open>attract\<close>
  is not taken there.
\<close>

theorem attract_calls_apart:
  assumes "p \<in> set (attract_calls h self ps)"
    and "0 < physical_radius (h self)" and "0 < physical_radius (h p)"
  shows "sqrt ((x_pos (h p) - x_pos (h self))\<^sup>2 + (y_pos (h p) - y_pos (h self))\<^sup>2) \<noteq> 0
       \<and> (x_pos (h p) \<noteq> x_pos (h self) \<or> y_pos (h p) \<noteq> y_pos (h self))"
proof -
  from attract_calls_subset [OF assms(1)] have "\<not> overlapping (h self) (h p)"
    by simp
  with assms(2,3)
  have "0 < sqrt ((x_pos (h p) - x_pos (h self))\<^sup>2 + (y_pos (h p) - y_pos (h self))\<^sup>2)"
    unfolding overlapping_def by linarith
  then show ?thesis by auto
qed


theorem attract_calls_apart_witness:
  "attract_calls (heap sun_earth) 0 (planets sun_earth) = [1]
   \<and> sqrt ((x_pos (heap sun_earth 1) - x_pos (heap sun_earth 0))\<^sup>2
         + (y_pos (heap sun_earth 1) - y_pos (heap sun_earth 0))\<^sup>2) \<noteq> 0"
proof -
  have c: "attract_calls (heap sun_earth) 0 (planets sun_earth) = [1]"
    by (simp add: sun_earth_def sun_def earth_def new_Planet_def SCALE_def)
  then have m: "1 \<in> set (attract_calls (heap sun_earth) 0 (planets sun_earth))"
    by simp
  have r: "0 < physical_radius (heap sun_earth 0)" "0 < physical_radius (heap sun_earth 1)"
    by (simp_all add: sun_earth_def sun_def earth_def new_Planet_def SCALE_def)
  from attract_calls_apart [OF m r] c show ?thesis
    by blast
qed

section \<open>One call of update_position\<close>

lemma update_position_apart:
  assumes "overlaps_of w self = []"
  shows "update_position self w =
    (case integrate (heap w self)
            (sum_list (map (\<lambda>p. fst (attract (heap w self) (heap w p)))
               (attract_calls (heap w) self (planets w))))
            (sum_list (map (\<lambda>p. snd (attract (heap w self) (heap w p)))
               (attract_calls (heap w) self (planets w)))) of
       Inl e \<Rightarrow> Inl e
     | Inr p \<Rightarrow> Inr (w\<lparr> heap := (heap w)(self := p) \<rparr>))"
  using assms by (simp add: update_position_def overlaps_of_def scan_others_filter)

lemma update_position_merge:
  assumes "overlaps_of w self = p # rest"
  shows "update_position self w =
    (case collide (heap w self) (heap w p) of
       Inl e \<Rightarrow> Inl e
     | Inr m \<Rightarrow>
         (case list_remove self (planets w) of
            Inl e \<Rightarrow> Inl e
          | Inr ps1 \<Rightarrow>
              (case list_remove p ps1 of
                 Inl e \<Rightarrow> Inl e
               | Inr ps2 \<Rightarrow>
                   Inr (w\<lparr> heap := (heap w)(next_ref w := m),
                            planets := ps2 @ [next_ref w],
                            next_ref := Suc (next_ref w) \<rparr>))))"
  using assms by (simp add: update_position_def overlaps_of_def scan_others_filter)

lemma update_position_cases:
  assumes "update_position self w = Inr w'"
  obtains (integrated) tx ty b where "overlaps_of w self = []"
      and "integrate (heap w self) tx ty = Inr b"
      and "w' = w\<lparr> heap := (heap w)(self := b) \<rparr>"
  | (merged) p rest m where "overlaps_of w self = p # rest"
      and "collide (heap w self) (heap w p) = Inr m"
      and "self \<in> set (planets w)" and "p \<in> set (planets w)" and "p \<noteq> self"
      and "w' = w\<lparr> heap := (heap w)(next_ref w := m),
                    planets := remove1 p (remove1 self (planets w)) @ [next_ref w],
                    next_ref := Suc (next_ref w) \<rparr>"
proof (cases "overlaps_of w self")
  case Nil
  with assms show ?thesis
    by (auto simp: update_position_apart split: sum.splits intro: integrated)
next
  case (Cons p rest)
  then have "p \<in> set (overlaps_of w self)" by simp
  then have "p \<in> set (planets w)" "p \<noteq> self"
    by (auto simp: overlaps_of_def)
  with assms Cons show ?thesis
    by (auto simp: update_position_merge list_remove_def split: sum.splits if_splits intro: merged)
qed

text \<open>
  C4, as the code has it. A call of \<open>update_position\<close> on a body that returns has done one
  of two things. If the body overlaps no other body of the collection (at the positions
  held when the call starts), the body is integrated and the collection keeps its
  members. Otherwise the body is merged with the first body in list order that overlaps
  it: both are removed from the list and the merged body is appended. Nothing is checked
  again after that.
\<close>

theorem update_position_resolves:
  assumes "update_position self w = Inr w'"
  shows "(overlaps_of w self = [] \<longrightarrow>
            planets w' = planets w
            \<and> (\<exists>tx ty b. integrate (heap w self) tx ty = Inr b \<and> heap w' = (heap w)(self := b)))
       \<and> (overlaps_of w self \<noteq> [] \<longrightarrow>
            (\<exists>m. collide (heap w self) (heap w (hd (overlaps_of w self))) = Inr m
                 \<and> heap w' = (heap w)(next_ref w := m))
            \<and> planets w' = remove1 (hd (overlaps_of w self)) (remove1 self (planets w)) @ [next_ref w]
            \<and> (wf_world w \<longrightarrow> self \<notin> set (planets w') \<and> hd (overlaps_of w self) \<notin> set (planets w')))"
  using assms
proof (cases rule: update_position_cases)
  case (integrated tx ty b)
  then show ?thesis by auto
next
  case (merged p rest m)
  have "self \<notin> set (planets w') \<and> p \<notin> set (planets w')" if "wf_world w"
    using that merged(3-5) by (auto simp: merged(6) wf_world_def)
  with merged show ?thesis by auto
qed


lemmas eval_defs = step_def main_pass.simps update_position_def integrate_def collide_def
  py_pow_def list_remove_def new_Planet_def Let_def SCALE_def TIMESTEP_def trail_limit_def

theorem update_position_resolves_witness:
  "(\<exists>w'. update_position 0 two_rocks = Inr w' \<and> wf_world two_rocks
         \<and> overlaps_of two_rocks 0 = [1] \<and> planets w' = [2])
   \<and> (\<exists>w'. update_position 0 earth_alone = Inr w'
         \<and> overlaps_of earth_alone 0 = [] \<and> planets w' = [0])"
proof -
  obtain w1 where w1: "update_position 0 two_rocks = Inr w1"
    by (simp add: eval_defs two_rocks_def rock_def)
  have o1: "overlaps_of two_rocks 0 = [1]"
    by (simp add: overlaps_of_def overlapping_def eval_defs two_rocks_def rock_def)
  have wf: "wf_world two_rocks"
    by (simp add: wf_world_def two_rocks_def)
  obtain w2 where w2: "update_position 0 earth_alone = Inr w2"
    by (simp add: eval_defs earth_alone_def earth_def)
  have o2: "overlaps_of earth_alone 0 = []"
    by (simp add: overlaps_of_def earth_alone_def)
  from update_position_resolves [OF w1] o1 have "planets w1 = [2]"
    by (simp add: two_rocks_def)
  moreover from update_position_resolves [OF w2] o2 have "planets w2 = [0]"
    by (simp add: earth_alone_def)
  ultimately show ?thesis
    using w1 w2 o1 o2 wf by blast
qed

text \<open>
  C4 as the specification words it fails: of four bodies at the same place the pass
  merges the first with the second and the fourth with the third, and the two merged
  bodies, appended at the end of the list, overlap each other when the pass is over.
\<close>

theorem step_overlap_counterexample:
  "overlapping_pairs four_rocks \<noteq> []
   \<and> map_sum id planets (step False None four_rocks) = Inr [4, 5]
   \<and> map_sum id overlapping_pairs (step False None four_rocks) = Inr [(4, 5), (5, 4)]"
  by (simp add: eval_defs four_rocks_def rock_def overlapping_pairs_def overlapping_def)

text \<open>
  The program only ever holds collections that are well formed: a call of
  \<open>update_position\<close> and a whole pass keep \<open>wf_world\<close>.
\<close>

lemma update_position_wf:
  assumes "update_position self w = Inr w'" and "wf_world w"
  shows "wf_world w'"
  using assms(1)
proof (cases rule: update_position_cases)
  case (integrated tx ty b)
  with assms(2) show ?thesis
    by (simp add: wf_world_def)
next
  case (merged p rest m)
  have sub: "set (remove1 p (remove1 self (planets w))) \<subseteq> set (planets w)"
    by (meson set_remove1_subset subset_trans)
  from assms(2) have "distinct (remove1 p (remove1 self (planets w)))"
    by (simp add: wf_world_def)
  moreover from assms(2) sub have "\<forall>r \<in> set (remove1 p (remove1 self (planets w))). r < next_ref w"
    by (auto simp: wf_world_def)
  ultimately show ?thesis
    by (auto simp: merged(6) wf_world_def less_Suc_eq)
qed

lemma main_pass_wf:
  assumes "main_pass paused dragging_planet i w = Inr w'" and "wf_world w"
  shows "wf_world w'"
  using assms
proof (induction paused dragging_planet i w rule: main_pass.induct)
  case (1 paused dragging_planet i w)
  show ?case
  proof (cases "i < length (planets w)")
    case False
    with "1.prems" show ?thesis
      by (simp add: main_pass.simps [of paused dragging_planet i w])
  next
    case True
    show ?thesis
    proof (cases "\<not> paused \<or> Some (planets w ! i) = dragging_planet")
      case upd: True
      with True "1.prems"(1) obtain w1 where w1: "update_position (planets w ! i) w = Inr w1"
        and rest: "main_pass paused dragging_planet (Suc i) w1 = Inr w'"
        by (auto simp: main_pass.simps [of paused dragging_planet i w] split: sum.splits)
      from w1 "1.prems"(2) have "wf_world w1"
        by (rule update_position_wf)
      with "1.IH"(1) [OF True refl upd w1 rest] show ?thesis .
    next
      case skip: False
      with True "1.prems"(1) have "main_pass paused dragging_planet (Suc i) w = Inr w'"
        by (auto simp: main_pass.simps [of paused dragging_planet i w])
      from "1.IH"(2) [OF True refl skip this "1.prems"(2)] show ?thesis .
    qed
  qed
qed

section \<open>The pass over the collection while paused\<close>

lemma main_pass_paused_None: "main_pass True None i w = Inr w"
proof (induction "length (planets w) - i" arbitrary: i)
  case 0
  then show ?case by (simp add: main_pass.simps [of True None i w])
next
  case (Suc n)
  then have "n = length (planets w) - Suc i" by simp
  from Suc(1) [OF this] show ?case
    by (simp add: main_pass.simps [of True None i w])
qed

lemma main_pass_paused_absent:
  assumes "d \<notin> set (drop i (planets w))"
  shows "main_pass True (Some d) i w = Inr w"
  using assms
proof (induction "length (planets w) - i" arbitrary: i)
  case 0
  then show ?case by (simp add: main_pass.simps [of True "Some d" i w])
next
  case (Suc n)
  then have i: "i < length (planets w)" and n: "n = length (planets w) - Suc i"
    by simp_all
  from i have split: "drop i (planets w) = planets w ! i # drop (Suc i) (planets w)"
    by (simp add: Cons_nth_drop_Suc)
  with Suc.prems have ne: "planets w ! i \<noteq> d" and rest: "d \<notin> set (drop (Suc i) (planets w))"
    by auto
  from Suc(1) [OF n rest] ne i show ?case
    by (simp add: main_pass.simps [of True "Some d" i w])
qed

lemma update_position_drops_self:
  assumes "update_position d w = Inr w'" and "wf_world w"
    and "i < length (planets w)" and "planets w ! i = d"
  shows "d \<notin> set (drop (Suc i) (planets w'))"
  using assms(1)
proof (cases rule: update_position_cases)
  case (integrated tx ty b)
  from assms(3) have "planets w = take i (planets w) @ planets w ! i # drop (Suc i) (planets w)"
    by (rule id_take_nth_drop)
  with assms(2) have "distinct (take i (planets w) @ d # drop (Suc i) (planets w))"
    by (simp add: wf_world_def assms(4))
  then show ?thesis
    by (simp add: integrated(3))
next
  case (merged p rest m)
  from assms(2) merged(3) have "d \<notin> set (planets w')"
    by (auto simp: merged(6) wf_world_def)
  then show ?thesis
    by (meson in_set_dropD)
qed

lemma main_pass_paused_present:
  assumes "wf_world w" and "d \<in> set (drop i (planets w))"
  shows "main_pass True (Some d) i w = update_position d w"
  using assms(2)
proof (induction "length (planets w) - i" arbitrary: i)
  case 0
  then show ?case by simp
next
  case (Suc n)
  then have i: "i < length (planets w)" and n: "n = length (planets w) - Suc i"
    by simp_all
  from i have split: "drop i (planets w) = planets w ! i # drop (Suc i) (planets w)"
    by (simp add: Cons_nth_drop_Suc)
  show ?case
  proof (cases "planets w ! i = d")
    case True
    show ?thesis
    proof (cases "update_position d w")
      case (Inl e)
      with True i show ?thesis
        by (simp add: main_pass.simps [of True "Some d" i w])
    next
      case (Inr w')
      from update_position_drops_self [OF Inr assms(1) i True]
      have "main_pass True (Some d) (Suc i) w' = Inr w'"
        by (rule main_pass_paused_absent)
      with Inr True i show ?thesis
        by (simp add: main_pass.simps [of True "Some d" i w])
    qed
  next
    case False
    with Suc.prems split have "d \<in> set (drop (Suc i) (planets w))"
      by auto
    from Suc(1) [OF n this] False i show ?thesis
      by (simp add: main_pass.simps [of True "Some d" i w])
  qed
qed

lemma update_position_frame:
  assumes "update_position d w = Inr w'" and "wf_world w" and "r \<in> set (planets w)" and "r \<noteq> d"
  shows "heap w' r = heap w r"
  using assms(1)
proof (cases rule: update_position_cases)
  case (integrated tx ty b)
  with assms(4) show ?thesis by simp
next
  case (merged p rest m)
  from assms(2,3) have "r \<noteq> next_ref w"
    by (auto simp: wf_world_def)
  with merged(6) show ?thesis by simp
qed

text \<open>
  C5, as the code has it. The flag \<open>paused\<close> is one flag for the whole frame. In a paused
  frame \<open>update_position\<close> is called on the dragged body and on no other: when nothing is
  dragged, or the dragged body is not in the collection, the pass changes nothing; when
  the dragged body is in the collection the pass is one call of \<open>update_position\<close> on it,
  and that call leaves the fields of every other body of the collection as they were.
\<close>

theorem paused_pass:
  assumes "wf_world w"
  shows "step True None w = Inr w
       \<and> (d \<notin> set (planets w) \<longrightarrow> step True (Some d) w = Inr w)
       \<and> (d \<in> set (planets w) \<longrightarrow>
            step True (Some d) w = update_position d w
            \<and> (\<forall>w' r. update_position d w = Inr w' \<and> r \<in> set (planets w) \<and> r \<noteq> d
                  \<longrightarrow> heap w' r = heap w r))"
proof (intro conjI impI allI)
  show "step True None w = Inr w"
    by (simp add: step_def main_pass_paused_None)
  show "step True (Some d) w = Inr w" if "d \<notin> set (planets w)"
    using that by (simp add: step_def main_pass_paused_absent)
  show "step True (Some d) w = update_position d w" if "d \<in> set (planets w)"
    using that assms by (simp add: step_def main_pass_paused_present)
  show "heap w' r = heap w r"
    if "update_position d w = Inr w' \<and> r \<in> set (planets w) \<and> r \<noteq> d" for w' r
    using that assms by (auto intro: update_position_frame)
qed

theorem paused_pass_witness:
  "wf_world sun_earth \<and> step True None sun_earth = Inr sun_earth
   \<and> step True (Some 2) sun_earth = Inr sun_earth
   \<and> step True (Some 1) sun_earth = update_position 1 sun_earth
   \<and> (\<exists>w'. update_position 1 sun_earth = Inr w' \<and> heap w' 0 = sun)"
proof -
  have wf: "wf_world sun_earth"
    by (simp add: wf_world_def sun_earth_def)
  have o: "overlaps_of sun_earth 1 = []"
    by (simp add: overlaps_of_def overlapping_def sun_earth_def sun_def earth_def
        new_Planet_def SCALE_def)
  have m: "mass (heap sun_earth 1) \<noteq> 0"
    by (simp add: sun_earth_def earth_def new_Planet_def)
  have "\<exists>w'. update_position 1 sun_earth = Inr w'"
    using m by (subst update_position_apart [OF o]) (simp add: integrate_def Let_def)
  then obtain w' where w': "update_position 1 sun_earth = Inr w'" ..
  have p: "planets sun_earth = [0, 1]" and h: "heap sun_earth 0 = sun"
    by (simp_all add: sun_earth_def)
  from paused_pass [OF wf, of 2] paused_pass [OF wf, of 1] w' wf show ?thesis
    by (auto simp: p h)
qed

text \<open>
  C5 as the specification words it fails for the dragged body: in a paused frame the
  Earth, being dragged, is moved by its velocity and gets a trail point.
\<close>

theorem paused_dragged_counterexample:
  "positions earth_alone = [(149600000000, 0)] \<and> trails earth_alone = [[]]
   \<and> map_sum id positions (step True (Some 0) earth_alone) = Inr [(149600000000, 2572992000)]
   \<and> map_sum id trails (step True (Some 0) earth_alone) = Inr [[(149600000000, 2572992000)]]"
  by (simp add: eval_defs earth_alone_def earth_def positions_def trails_def)

section \<open>The orbit trail\<close>























end
